theory Spec2Isabelle
  imports Main "HOL-Library.Sublist"
begin

section \<open>Birthday picker utilities: the data model\<close>

text \<open>
  The module \<^verbatim>\<open>BirthdayPicker/birthdayPickerUtils.ts\<close> is a collection of pure functions.
  A TypeScript \<^verbatim>\<open>number\<close> that holds a year, a month or a day is modelled as an \<open>int\<close>
  (the integers a double represents exactly; \<^verbatim>\<open>NaN\<close>, infinities and fractions are outside
  the model).  A parameter of type \<^verbatim>\<open>number | undefined\<close> is an \<open>int option\<close>.
  A string is a \<open>string\<close>, one \<open>char\<close> per code unit, which covers the code units
  0 to 255.
\<close>

record DateParts =
  year :: int
  month :: int
  day :: int

record MonthOption =
  optionValue :: int
  label :: string

definition DEFAULT_MIN_YEAR :: int where
  "DEFAULT_MIN_YEAR = 1901"

section \<open>Primitives of the language\<close>

text \<open>
  The remainder operator \<^verbatim>\<open>%\<close> truncates towards zero: the result has the sign of the
  dividend.
\<close>

definition jsRem :: "int \<Rightarrow> int \<Rightarrow> int" where
  "jsRem a b = sgn a * (\<bar>a\<bar> mod \<bar>b\<bar>)"

text \<open>
  Truthiness of a \<^verbatim>\<open>number | undefined\<close>: \<^verbatim>\<open>!v\<close> holds for \<^verbatim>\<open>undefined\<close> and for 0.
\<close>

definition falsyNumber :: "int option \<Rightarrow> bool" where
  "falsyNumber v = (case v of None \<Rightarrow> True | Some n \<Rightarrow> n = 0)"

text \<open>\<^verbatim>\<open>Number.prototype.toString\<close> on an integer: its decimal digits, after a minus sign
  when it is negative.\<close>

definition digitChar :: "nat \<Rightarrow> char" where
  "digitChar n = ''0123456789'' ! n"

fun digitsOf :: "nat \<Rightarrow> string" where
  "digitsOf n = (if n < 10 then [digitChar n] else digitsOf (n div 10) @ [digitChar (n mod 10)])"

declare digitsOf.simps [simp del]

definition numberToString :: "int \<Rightarrow> string" where
  "numberToString n = (if n < 0 then CHR ''-'' # digitsOf (nat (- n)) else digitsOf (nat n))"

text \<open>\<^verbatim>\<open>String.prototype.padStart(target, "0")\<close>.\<close>

definition padStart :: "string \<Rightarrow> nat \<Rightarrow> string" where
  "padStart s target = replicate (target - length s) CHR ''0'' @ s"

text \<open>The class \<^verbatim>\<open>\d\<close> of a regular expression, and \<^verbatim>\<open>Number\<close> applied to a string of
  such digits.\<close>

definition isDigit :: "char \<Rightarrow> bool" where
  "isDigit c \<longleftrightarrow> (48::nat) \<le> of_char c \<and> of_char c \<le> (57::nat)"

definition digitVal :: "char \<Rightarrow> nat" where
  "digitVal c = of_char c - 48"

definition toNumber :: "string \<Rightarrow> int" where
  "toNumber s = int (foldl (\<lambda>acc c. 10 * acc + digitVal c) 0 s)"

text \<open>
  \<^verbatim>\<open>String.prototype.trim\<close> removes white space and line terminators at both ends; among
  the code units 0 to 255 these are tab, line feed, vertical tab, form feed, carriage
  return, space and the no-break space.  \<^verbatim>\<open>toLowerCase\<close> maps A to Z and the upper-case
  letters of the range 192 to 222 (the multiplication sign 215 apart) 32 places up.
\<close>

definition isWhiteSpace :: "char \<Rightarrow> bool" where
  "isWhiteSpace c \<longleftrightarrow> (of_char c :: nat) \<in> {9, 10, 11, 12, 13, 32, 160}"

definition trim :: "string \<Rightarrow> string" where
  "trim s = rev (dropWhile isWhiteSpace (rev (dropWhile isWhiteSpace s)))"

definition toLowerChar :: "char \<Rightarrow> char" where
  "toLowerChar c =
     (let n = (of_char c :: nat)
      in if (65 \<le> n \<and> n \<le> 90) \<or> (192 \<le> n \<and> n \<le> 222 \<and> n \<noteq> 215)
         then char_of (n + 32) else c)"

definition toLowerCase :: "string \<Rightarrow> string" where
  "toLowerCase s = map toLowerChar s"

text \<open>\<^verbatim>\<open>s.startsWith(p)\<close> and \<^verbatim>\<open>s.includes(p)\<close>.\<close>

definition startsWith :: "string \<Rightarrow> string \<Rightarrow> bool" where
  "startsWith s p \<longleftrightarrow> take (length p) s = p"

fun includesText :: "string \<Rightarrow> string \<Rightarrow> bool" where
  "includesText [] p = (p = [])"
| "includesText (c # s) p = (startsWith (c # s) p \<or> includesText s p)"

section \<open>Calendar engine\<close>

definition toTwoDigit :: "int \<Rightarrow> string" where
  "toTwoDigit v = padStart (numberToString v) 2"

definition formatIsoDate :: "int \<Rightarrow> int \<Rightarrow> int \<Rightarrow> string" where
  "formatIsoDate y m d = numberToString y @ ''-'' @ toTwoDigit m @ ''-'' @ toTwoDigit d"

text \<open>
  The regular expression \<^verbatim>\<open>/^(\d{4})-(\d{2})-(\d{2})$/\<close>: it has no flag, so the anchors
  are the two ends of the input, and a match gives the three groups.
\<close>

fun matchIsoPattern :: "string \<Rightarrow> (string \<times> string \<times> string) option" where
  "matchIsoPattern [y1, y2, y3, y4, s1, m1, m2, s2, d1, d2] =
     (if isDigit y1 \<and> isDigit y2 \<and> isDigit y3 \<and> isDigit y4 \<and> s1 = CHR ''-''
         \<and> isDigit m1 \<and> isDigit m2 \<and> s2 = CHR ''-'' \<and> isDigit d1 \<and> isDigit d2
      then Some ([y1, y2, y3, y4], [m1, m2], [d1, d2]) else None)"
| "matchIsoPattern _ = None"

definition parseIsoDate :: "string option \<Rightarrow> DateParts option" where
  "parseIsoDate v =
     (case v of
        None \<Rightarrow> None
      | Some s \<Rightarrow>
          if s = [] then None
          else (case matchIsoPattern s of
                  None \<Rightarrow> None
                | Some (g1, g2, g3) \<Rightarrow>
                    let y = toNumber g1; m = toNumber g2; d = toNumber g3
                    in if y = 0 \<or> m < 1 \<or> m > 12 \<or> d < 1 \<or> d > 31 then None
                       else Some \<lparr>year = y, month = m, day = d\<rparr>))"

definition isLeapYear :: "int \<Rightarrow> bool" where
  "isLeapYear y =
     (if jsRem y 400 = 0 then True
      else if jsRem y 100 = 0 then False
      else jsRem y 4 = 0)"

definition getDaysInMonth :: "int \<Rightarrow> int \<Rightarrow> int" where
  "getDaysInMonth y m =
     (if m = 2 then (if isLeapYear y then 29 else 28)
      else if m = 4 \<or> m = 6 \<or> m = 9 \<or> m = 11 then 30
      else 31)"

section \<open>Range policy\<close>

definition getMaxMonthForYear :: "int option \<Rightarrow> DateParts \<Rightarrow> int" where
  "getMaxMonthForYear selectedYear today =
     (if falsyNumber selectedYear then 12
      else if selectedYear = Some (year today) then month today else 12)"

definition FALLBACK_YEAR :: int where
  "FALLBACK_YEAR = 2001"

text \<open>The guard \<^verbatim>\<open>!selectedMonth\<close> holds for \<^verbatim>\<open>undefined\<close> and for 0; the operator \<^verbatim>\<open>??\<close>
  replaces \<^verbatim>\<open>undefined\<close> only, so a selected year 0 stays 0.\<close>

definition getMaxDayForSelection :: "int option \<Rightarrow> int option \<Rightarrow> DateParts \<Rightarrow> int" where
  "getMaxDayForSelection selectedYear selectedMonth today =
     (case selectedMonth of
        None \<Rightarrow> 31
      | Some m \<Rightarrow>
          if m = 0 then 31
          else
            let y = (case selectedYear of None \<Rightarrow> FALLBACK_YEAR | Some v \<Rightarrow> v);
                maxByMonth = getDaysInMonth y m
            in if selectedYear = Some (year today) \<and> m = month today
               then min (day today) maxByMonth
               else maxByMonth)"

section \<open>Option builder\<close>

text \<open>The \<^verbatim>\<open>for\<close> loop of \<^verbatim>\<open>buildYearOptions\<close>: the counter runs down from \<^verbatim>\<open>maxYear\<close>
  while it is at least \<^verbatim>\<open>start\<close>, pushing each value.\<close>

function buildYearsLoop :: "int \<Rightarrow> int \<Rightarrow> int list \<Rightarrow> int list" where
  "buildYearsLoop start y years =
     (if y \<ge> start then buildYearsLoop start (y - 1) (years @ [y]) else years)"
  by pat_completeness auto
termination
  by (relation "measure (\<lambda>(start, y, years). nat (y - start + 1))") auto

declare buildYearsLoop.simps [simp del]

definition buildYearOptions :: "int \<Rightarrow> int \<Rightarrow> int list" where
  "buildYearOptions minYear maxYear =
     (let start = min minYear maxYear in buildYearsLoop start maxYear [])"

section \<open>Availability filter\<close>

definition getAvailableMonths :: "MonthOption list \<Rightarrow> int option \<Rightarrow> DateParts \<Rightarrow> MonthOption list" where
  "getAvailableMonths options selectedYear today =
     (let maxMonth = getMaxMonthForYear selectedYear today
      in filter (\<lambda>option. optionValue option \<le> maxMonth) options)"

text \<open>\<^verbatim>\<open>Array.from({ length: n }, (_, index) => index + 1)\<close>; a negative length gives the
  empty array.\<close>

definition arrayFromLength :: "int \<Rightarrow> int list" where
  "arrayFromLength n = map (\<lambda>index. int index + 1) [0 ..< nat n]"

definition getAvailableDays :: "int option \<Rightarrow> int option \<Rightarrow> DateParts \<Rightarrow> int list" where
  "getAvailableDays selectedYear selectedMonth today =
     (if falsyNumber selectedMonth then arrayFromLength 31
      else
        let maxDay = getMaxDayForSelection selectedYear selectedMonth today
        in arrayFromLength maxDay)"

section \<open>Typeahead filter\<close>

definition normalizeFilterText :: "string \<Rightarrow> string" where
  "normalizeFilterText v = toLowerCase (trim v)"

definition filterMonthOptions :: "MonthOption list \<Rightarrow> string \<Rightarrow> MonthOption list" where
  "filterMonthOptions options input =
     (let flt = normalizeFilterText input
      in if flt = [] then options
         else filter (\<lambda>option. includesText (toLowerCase (label option)) flt) options)"

definition filterNumberOptions :: "int list \<Rightarrow> string \<Rightarrow> int list" where
  "filterNumberOptions options input =
     (let flt = normalizeFilterText input
      in if flt = [] then options
         else filter (\<lambda>v. includesText (numberToString v) flt) options)"

definition filterYearOptions :: "int list \<Rightarrow> string \<Rightarrow> int list" where
  "filterYearOptions options input =
     (let flt = normalizeFilterText input
      in if flt = [] then options
         else filter (\<lambda>v. startsWith (numberToString v) flt) options)"

section \<open>Auxiliary facts\<close>

subsection \<open>Remainder and divisibility\<close>

lemma jsRem_zero_iff: "0 < b \<Longrightarrow> jsRem a b = 0 \<longleftrightarrow> b dvd a"
proof -
  assume b: "0 < b"
  have "jsRem a b = 0 \<longleftrightarrow> \<bar>a\<bar> mod b = 0"
    using b by (auto simp: jsRem_def sgn_if)
  also have "\<dots> \<longleftrightarrow> b dvd \<bar>a\<bar>"
    by (simp add: dvd_eq_mod_eq_0)
  also have "\<dots> \<longleftrightarrow> b dvd a"
    by simp
  finally show ?thesis .
qed

lemma getDaysInMonth_le: "getDaysInMonth y m \<le> 31"
  by (simp add: getDaysInMonth_def)

subsection \<open>Decimal digits\<close>

lemma digitChar_isDigit: "n < 10 \<Longrightarrow> isDigit (digitChar n)"
proof -
  assume "n < 10"
  then have "n \<in> {0, 1, 2, 3, 4, 5, 6, 7, 8, 9}" by auto
  then show ?thesis by (auto simp: digitChar_def isDigit_def)
qed

lemma digitVal_digitChar: "n < 10 \<Longrightarrow> digitVal (digitChar n) = n"
proof -
  assume "n < 10"
  then have "n \<in> {0, 1, 2, 3, 4, 5, 6, 7, 8, 9}" by auto
  then show ?thesis by (auto simp: digitChar_def digitVal_def)
qed

lemma isDigit_iff: "isDigit c \<longleftrightarrow> c \<in> set ''0123456789''"
proof
  assume "isDigit c"
  then have "48 \<le> (of_char c :: nat)" "(of_char c :: nat) \<le> 57"
    by (simp_all add: isDigit_def)
  then have "(of_char c :: nat) \<in> {48, 49, 50, 51, 52, 53, 54, 55, 56, 57}"
    by (simp only: insert_iff empty_iff) arith
  then have "(of_char c :: nat) \<in> of_char ` set ''0123456789''"
    by simp
  then obtain d where d: "d \<in> set ''0123456789''" "(of_char c :: nat) = of_char d"
    by blast
  from d(2) have "c = d" by (rule of_char_eqI)
  with d(1) show "c \<in> set ''0123456789''" by simp
next
  assume "c \<in> set ''0123456789''"
  then show "isDigit c" by (auto simp: isDigit_def)
qed

lemma digit_set: "set ''0123456789'' = {c. isDigit c}"
  by (rule set_eqI) (simp only: isDigit_iff mem_Collect_eq)

lemma digitsOf_small: "n < 10 \<Longrightarrow> digitsOf n = [digitChar n]"
  by (subst digitsOf.simps) simp

lemma digitsOf_step: "10 \<le> n \<Longrightarrow> digitsOf n = digitsOf (n div 10) @ [digitChar (n mod 10)]"
  by (subst digitsOf.simps) simp

lemma digitsOf_two:
  "10 \<le> n \<Longrightarrow> n < 100 \<Longrightarrow> digitsOf n = [digitChar (n div 10), digitChar (n mod 10)]"
  by (simp add: digitsOf_step digitsOf_small)

lemma digitsOf_four:
  assumes "1000 \<le> n" "n < 10000"
  shows "digitsOf n = [digitChar (n div 1000), digitChar (n div 100 mod 10),
                       digitChar (n div 10 mod 10), digitChar (n mod 10)]"
proof -
  have a: "digitsOf n = digitsOf (n div 10) @ [digitChar (n mod 10)]"
    using assms by (simp add: digitsOf_step)
  have b: "digitsOf (n div 10) = digitsOf (n div 10 div 10) @ [digitChar (n div 10 mod 10)]"
    using assms by (simp add: digitsOf_step)
  have c: "digitsOf (n div 10 div 10) =
           [digitChar (n div 10 div 10 div 10), digitChar (n div 10 div 10 mod 10)]"
    using assms by (intro digitsOf_two) auto
  have d: "n div 10 div 10 = n div 100" "n div 10 div 10 div 10 = n div 1000"
    by (simp_all add: div_mult2_eq [symmetric])
  show ?thesis using a b c d by simp
qed

text \<open>Reading the digits of a number back gives the number: \<open>digitsOf\<close> is its decimal
  representation.\<close>

lemma foldl_digitsOf: "foldl (\<lambda>acc c. 10 * acc + digitVal c) 0 (digitsOf n) = n"
proof (induction n rule: digitsOf.induct)
  case (1 n)
  show ?case
  proof (cases "n < 10")
    case True
    then show ?thesis by (simp add: digitsOf_small digitVal_digitChar)
  next
    case False
    then have "foldl (\<lambda>acc c. 10 * acc + digitVal c) 0 (digitsOf (n div 10)) = n div 10"
      using 1 by simp
    then show ?thesis using False by (simp add: digitsOf_step digitVal_digitChar)
  qed
qed

lemma toNumber_digitsOf: "toNumber (digitsOf n) = int n"
  by (simp only: toNumber_def foldl_digitsOf)

lemma toNumber_two:
  "a < 10 \<Longrightarrow> b < 10 \<Longrightarrow> toNumber [digitChar a, digitChar b] = int (10 * a + b)"
  by (simp add: toNumber_def digitVal_digitChar)

subsection \<open>Two-digit padding\<close>

lemma toTwoDigit_eq:
  assumes "0 \<le> k" "k < 100"
  shows "toTwoDigit k = [digitChar (nat k div 10), digitChar (nat k mod 10)]"
proof (cases "k < 10")
  case True
  then have "numberToString k = [digitChar (nat k)]"
    using assms by (simp add: numberToString_def digitsOf_small)
  then show ?thesis using True assms
    by (simp add: toTwoDigit_def padStart_def digitChar_def)
next
  case False
  then have "numberToString k = [digitChar (nat k div 10), digitChar (nat k mod 10)]"
    using assms by (simp add: numberToString_def digitsOf_two)
  then show ?thesis by (simp add: toTwoDigit_def padStart_def)
qed

lemma toNumber_toTwoDigit:
  assumes "0 \<le> k" "k < 100"
  shows "toNumber (toTwoDigit k) = k"
proof -
  have "toNumber (toTwoDigit k) = int (10 * (nat k div 10) + nat k mod 10)"
    using assms by (simp only: toTwoDigit_eq) (rule toNumber_two, auto)
  also have "\<dots> = int (nat k)" by (simp only: mult_div_mod_eq)
  finally show ?thesis using assms by simp
qed

subsection \<open>The pattern of an ISO date\<close>

lemma matchIsoPattern_Some:
  "matchIsoPattern s = Some (g1, g2, g3) \<longleftrightarrow>
     (\<exists>y1 y2 y3 y4 m1 m2 d1 d2.
        s = [y1, y2, y3, y4, CHR ''-'', m1, m2, CHR ''-'', d1, d2]
        \<and> isDigit y1 \<and> isDigit y2 \<and> isDigit y3 \<and> isDigit y4
        \<and> isDigit m1 \<and> isDigit m2 \<and> isDigit d1 \<and> isDigit d2
        \<and> g1 = [y1, y2, y3, y4] \<and> g2 = [m1, m2] \<and> g3 = [d1, d2])"
  by (cases s rule: matchIsoPattern.cases) (auto split: if_splits)

lemma parseIsoDate_Some_isDigit:
  "(parseIsoDate v = Some r) =
     (\<exists>y1 y2 y3 y4 m1 m2 d1 d2.
        v = Some [y1, y2, y3, y4, CHR ''-'', m1, m2, CHR ''-'', d1, d2]
        \<and> set [y1, y2, y3, y4, m1, m2, d1, d2] \<subseteq> {c. isDigit c}
        \<and> r = \<lparr>year = toNumber [y1, y2, y3, y4], month = toNumber [m1, m2],
                 day = toNumber [d1, d2]\<rparr>
        \<and> year r \<noteq> 0 \<and> 1 \<le> month r \<and> month r \<le> 12 \<and> 1 \<le> day r \<and> day r \<le> 31)"
  (is "?L = ?R")
proof
  assume L: ?L
  then obtain s where v: "v = Some s"
    by (cases v) (simp_all add: parseIsoDate_def)
  from L v obtain g1 g2 g3 where mt: "matchIsoPattern s = Some (g1, g2, g3)"
    by (cases "matchIsoPattern s") (auto simp: parseIsoDate_def split: if_splits)
  then obtain y1 y2 y3 y4 m1 m2 d1 d2 where
    s: "s = [y1, y2, y3, y4, CHR ''-'', m1, m2, CHR ''-'', d1, d2]"
    and dg: "isDigit y1" "isDigit y2" "isDigit y3" "isDigit y4"
            "isDigit m1" "isDigit m2" "isDigit d1" "isDigit d2"
    and gs: "g1 = [y1, y2, y3, y4]" "g2 = [m1, m2]" "g3 = [d1, d2]"
    unfolding matchIsoPattern_Some by blast
  have p: "parseIsoDate v =
      (if toNumber g1 = 0 \<or> toNumber g2 < 1 \<or> toNumber g2 > 12
          \<or> toNumber g3 < 1 \<or> toNumber g3 > 31
       then None
       else Some \<lparr>year = toNumber g1, month = toNumber g2, day = toNumber g3\<rparr>)"
    unfolding v s parseIsoDate_def using mt [unfolded s]
    by (simp add: Let_def del: matchIsoPattern.simps)
  from L have r: "r = \<lparr>year = toNumber g1, month = toNumber g2, day = toNumber g3\<rparr>"
    and rng: "toNumber g1 \<noteq> 0" "1 \<le> toNumber g2" "toNumber g2 \<le> 12"
             "1 \<le> toNumber g3" "toNumber g3 \<le> 31"
    unfolding p by (simp_all split: if_splits)
  show ?R
  proof (intro exI conjI)
    show "v = Some [y1, y2, y3, y4, CHR ''-'', m1, m2, CHR ''-'', d1, d2]"
      by (simp only: v s)
    show "set [y1, y2, y3, y4, m1, m2, d1, d2] \<subseteq> {c. isDigit c}"
      using dg by simp
    show "r = \<lparr>year = toNumber [y1, y2, y3, y4], month = toNumber [m1, m2],
                day = toNumber [d1, d2]\<rparr>"
      by (simp only: r gs)
    show "year r \<noteq> 0" "1 \<le> month r" "month r \<le> 12" "1 \<le> day r" "day r \<le> 31"
      using rng by (simp_all add: r)
  qed
next
  assume ?R
  then obtain y1 y2 y3 y4 m1 m2 d1 d2 where
    v: "v = Some [y1, y2, y3, y4, CHR ''-'', m1, m2, CHR ''-'', d1, d2]"
    and dg: "set [y1, y2, y3, y4, m1, m2, d1, d2] \<subseteq> {c. isDigit c}"
    and r: "r = \<lparr>year = toNumber [y1, y2, y3, y4], month = toNumber [m1, m2],
                  day = toNumber [d1, d2]\<rparr>"
    and rng: "year r \<noteq> 0" "1 \<le> month r" "month r \<le> 12" "1 \<le> day r" "day r \<le> 31"
    by (elim exE conjE)
  have mt: "matchIsoPattern [y1, y2, y3, y4, CHR ''-'', m1, m2, CHR ''-'', d1, d2]
            = Some ([y1, y2, y3, y4], [m1, m2], [d1, d2])"
    using dg by simp
  have rng': "toNumber [y1, y2, y3, y4] \<noteq> 0" "1 \<le> toNumber [m1, m2]"
    "toNumber [m1, m2] \<le> 12" "1 \<le> toNumber [d1, d2]" "toNumber [d1, d2] \<le> 31"
    using rng by (simp_all add: r)
  show ?L
    unfolding v parseIsoDate_def using rng'
    by (simp add: mt Let_def r del: matchIsoPattern.simps)
qed

subsection \<open>The year loop and the filters\<close>

lemma buildYearsLoop_upto: "buildYearsLoop start y acc = acc @ rev [start..y]"
proof (induction start y acc rule: buildYearsLoop.induct)
  case (1 start y years)
  show ?case
  proof (cases "y \<ge> start")
    case True
    then show ?thesis using 1 by (subst buildYearsLoop.simps) (simp add: upto_rec2)
  next
    case False
    then show ?thesis by (subst buildYearsLoop.simps) simp
  qed
qed

lemma normalizeFilterText_empty: "normalizeFilterText q = [] \<longleftrightarrow> trim q = []"
  by (simp add: normalizeFilterText_def toLowerCase_def)

lemma startsWith_prefix: "startsWith s p \<longleftrightarrow> prefix p s"
  unfolding startsWith_def prefix_def
  by (metis append_eq_conv_conj append_take_drop_id)

section \<open>Calendar engine: leap years and month lengths\<close>

text \<open>
  Claim C5.  For every integer year \<open>y\<close>, \<open>isLeapYear y\<close> holds if and only if \<open>y\<close> is
  divisible by 400, or divisible by 4 and not by 100; and the four years 2000, 1900, 2024
  and 2023 give true, false, true and false.
\<close>

theorem isLeapYear_gregorian:
  "(isLeapYear y \<longleftrightarrow> (400 dvd y \<or> (4 dvd y \<and> \<not> 100 dvd y)))
   \<and> isLeapYear 2000 \<and> \<not> isLeapYear 1900 \<and> isLeapYear 2024 \<and> \<not> isLeapYear 2023"
proof
  show "isLeapYear y \<longleftrightarrow> (400 dvd y \<or> (4 dvd y \<and> \<not> 100 dvd y))"
    unfolding isLeapYear_def by (simp add: jsRem_zero_iff)
  show "isLeapYear 2000 \<and> \<not> isLeapYear 1900 \<and> isLeapYear 2024 \<and> \<not> isLeapYear 2023"
    by (simp add: isLeapYear_def jsRem_def)
qed

text \<open>
  Claim C6.  For every year \<open>y\<close> and every month \<open>m\<close> from 1 to 12, \<open>getDaysInMonth y m\<close>
  is 31 for the months 1, 3, 5, 7, 8, 10 and 12, 30 for the months 4, 6, 9 and 11, and for
  month 2 it is 29 in a leap year and 28 otherwise.
\<close>

theorem getDaysInMonth_table:
  assumes "1 \<le> m" "m \<le> 12"
  shows "getDaysInMonth y m =
     (if m \<in> {1, 3, 5, 7, 8, 10, 12} then 31
      else if m \<in> {4, 6, 9, 11} then 30
      else if isLeapYear y then 29 else 28)"
  using assms unfolding getDaysInMonth_def by simp presburger

text \<open>The table at February of the leap year 2024.\<close>

theorem getDaysInMonth_table_witness:
  "(1::int) \<le> 2 \<and> (2::int) \<le> 12 \<and> getDaysInMonth 2024 2 = 29"
proof -
  have l: "isLeapYear 2024" by (simp add: isLeapYear_def jsRem_def)
  show ?thesis using l getDaysInMonth_table [of 2 2024] by simp
qed

section \<open>Calendar engine: formatting and parsing\<close>

text \<open>
  Claim C4.  \<open>parseIsoDate\<close> returns a date exactly when its input is a string of four
  digits, a hyphen, two digits, a hyphen and two digits whose year is not zero, whose month
  is from 1 to 12 and whose day is from 1 to 31; the date returned holds the three numbers
  read.  On every other input, the empty string and an absent input among them, it returns
  nothing.  The day is not checked against the month: \<open>''2023-02-30''\<close> is accepted.
\<close>

theorem parseIsoDate_accepts_iff:
  "((parseIsoDate v = Some r) =
     (\<exists>y1 y2 y3 y4 m1 m2 d1 d2.
        v = Some [y1, y2, y3, y4, CHR ''-'', m1, m2, CHR ''-'', d1, d2]
        \<and> set [y1, y2, y3, y4, m1, m2, d1, d2] \<subseteq> set ''0123456789''
        \<and> r = \<lparr>year = toNumber [y1, y2, y3, y4], month = toNumber [m1, m2],
                 day = toNumber [d1, d2]\<rparr>
        \<and> year r \<noteq> 0 \<and> 1 \<le> month r \<and> month r \<le> 12 \<and> 1 \<le> day r \<and> day r \<le> 31))
   \<and> parseIsoDate (Some ''2023-02-30'') = Some \<lparr>year = 2023, month = 2, day = 30\<rparr>
   \<and> parseIsoDate (Some []) = None
   \<and> parseIsoDate None = None"
proof (intro conjI)
  show "(parseIsoDate v = Some r) =
     (\<exists>y1 y2 y3 y4 m1 m2 d1 d2.
        v = Some [y1, y2, y3, y4, CHR ''-'', m1, m2, CHR ''-'', d1, d2]
        \<and> set [y1, y2, y3, y4, m1, m2, d1, d2] \<subseteq> set ''0123456789''
        \<and> r = \<lparr>year = toNumber [y1, y2, y3, y4], month = toNumber [m1, m2],
                 day = toNumber [d1, d2]\<rparr>
        \<and> year r \<noteq> 0 \<and> 1 \<le> month r \<and> month r \<le> 12 \<and> 1 \<le> day r \<and> day r \<le> 31)"
    unfolding digit_set by (rule parseIsoDate_Some_isDigit)
  show "parseIsoDate (Some ''2023-02-30'') = Some \<lparr>year = 2023, month = 2, day = 30\<rparr>"
    by code_simp
  show "parseIsoDate (Some []) = None"
    by (simp add: parseIsoDate_def)
  show "parseIsoDate None = None"
    by (simp add: parseIsoDate_def)
qed

text \<open>
  Claim C1, as the source has it.  \<open>formatIsoDate\<close> pads the month and the day to two
  digits and writes the year as it is.  For every date \<open>(y, m, d)\<close> with a four-digit year,
  \<open>1000 \<le> y \<le> 9999\<close>, a month from 1 to 12 and a day from 1 to \<open>getDaysInMonth y m\<close>,
  the formatted string has ten characters and \<open>parseIsoDate\<close> reads the same date back.
\<close>

theorem formatIsoDate_parseIsoDate_roundtrip:
  assumes y: "1000 \<le> y" "y \<le> 9999" and m: "1 \<le> m" "m \<le> 12"
    and d: "1 \<le> d" "d \<le> getDaysInMonth y m"
  shows "parseIsoDate (Some (formatIsoDate y m d)) = Some \<lparr>year = y, month = m, day = d\<rparr>
         \<and> length (formatIsoDate y m d) = 10"
proof -
  define n where "n = nat y"
  have n: "1000 \<le> n" "n < 10000" "int n = y" using y by (simp_all add: n_def)
  have d31: "d \<le> 31" using d getDaysInMonth_le [of y m] by linarith
  let ?ys = "[digitChar (n div 1000), digitChar (n div 100 mod 10),
              digitChar (n div 10 mod 10), digitChar (n mod 10)]"
  let ?ms = "[digitChar (nat m div 10), digitChar (nat m mod 10)]"
  let ?ds = "[digitChar (nat d div 10), digitChar (nat d mod 10)]"
  have "\<not> y < 0" using y by simp
  then have "numberToString y = digitsOf n"
    by (simp add: numberToString_def n_def)
  then have ys: "numberToString y = ?ys"
    using n digitsOf_four [of n] by simp
  have ms: "toTwoDigit m = ?ms" using m by (intro toTwoDigit_eq) auto
  have ds: "toTwoDigit d = ?ds" using d d31 by (intro toTwoDigit_eq) auto
  have fmt: "formatIsoDate y m d = ?ys @ ''-'' @ ?ms @ ''-'' @ ?ds"
    by (simp only: formatIsoDate_def ys ms ds)
  have dig: "isDigit (digitChar (n div 1000))" "isDigit (digitChar (n div 100 mod 10))"
    "isDigit (digitChar (n div 10 mod 10))" "isDigit (digitChar (n mod 10))"
    "isDigit (digitChar (nat m div 10))" "isDigit (digitChar (nat m mod 10))"
    "isDigit (digitChar (nat d div 10))" "isDigit (digitChar (nat d mod 10))"
    using n m d d31 by (auto intro!: digitChar_isDigit)
  have mt: "matchIsoPattern (formatIsoDate y m d) = Some (?ys, ?ms, ?ds)"
    using dig by (simp add: fmt)
  have ny: "toNumber ?ys = y"
    using toNumber_digitsOf [of n] digitsOf_four [of n] n by simp
  have nm: "toNumber ?ms = m"
    using toNumber_toTwoDigit [of m] m by (simp add: ms)
  have nd: "toNumber ?ds = d"
    using toNumber_toTwoDigit [of d] d d31 by (simp add: ds)
  have ne: "formatIsoDate y m d \<noteq> []" by (simp add: fmt)
  have "parseIsoDate (Some (formatIsoDate y m d)) = Some \<lparr>year = y, month = m, day = d\<rparr>"
    using y m d d31 ne by (simp add: parseIsoDate_def mt ny nm nd del: matchIsoPattern.simps)
  moreover have "length (formatIsoDate y m d) = 10" by (simp add: fmt)
  ultimately show ?thesis by simp
qed

text \<open>The round trip at 29 February 2024.\<close>

theorem formatIsoDate_parseIsoDate_roundtrip_witness:
  "(1000::int) \<le> 2024 \<and> (2024::int) \<le> 9999 \<and> (1::int) \<le> 2 \<and> (2::int) \<le> 12
   \<and> (1::int) \<le> 29 \<and> 29 \<le> getDaysInMonth 2024 2
   \<and> parseIsoDate (Some (formatIsoDate 2024 2 29)) = Some \<lparr>year = 2024, month = 2, day = 29\<rparr>
   \<and> length (formatIsoDate 2024 2 29) = 10"
proof -
  have h: "(29::int) \<le> getDaysInMonth 2024 2"
    by (simp add: getDaysInMonth_def isLeapYear_def jsRem_def)
  show ?thesis using h formatIsoDate_parseIsoDate_roundtrip [of 2024 2 29] by simp
qed

text \<open>
  Claim C1, as stated, for every positive year: 1 January of the year 5 is a valid date,
  its formatted string is \<open>''5-01-01''\<close>, which is not of fixed width, and \<open>parseIsoDate\<close>
  rejects it.
\<close>

theorem formatIsoDate_short_year_counterexample:
  "(0::int) < 5 \<and> (1::int) \<le> getDaysInMonth 5 1
   \<and> formatIsoDate 5 1 1 = ''5-01-01''
   \<and> parseIsoDate (Some (formatIsoDate 5 1 1)) = None"
  by code_simp

section \<open>Option builder: the list of years\<close>

text \<open>
  Claim C2, as the source has it.  For every pair of integers, \<open>buildYearOptions minYear
  maxYear\<close> is the descending list of consecutive integers from \<open>maxYear\<close> down to
  \<open>min minYear maxYear\<close>: the years from \<open>maxYear\<close> down to \<open>minYear\<close> when
  \<open>minYear \<le> maxYear\<close>, and the single year \<open>maxYear\<close> when \<open>minYear > maxYear\<close>.
\<close>

theorem buildYearOptions_descending:
  "buildYearOptions minYear maxYear = rev [min minYear maxYear .. maxYear]
   \<and> buildYearOptions minYear maxYear =
       (if minYear > maxYear then [maxYear] else rev [minYear .. maxYear])"
  by (simp add: buildYearOptions_def buildYearsLoop_upto min_def)

text \<open>
  Claim C2, as stated, with the list starting at the larger bound: for the bounds 2000 and
  1998 given in this order the result is the single year 1998, not the three years from
  2000 down to 1998.
\<close>

theorem buildYearOptions_reversed_bounds_counterexample:
  "buildYearOptions 2000 1998 = [1998]
   \<and> buildYearOptions 2000 1998 \<noteq> rev [min 2000 1998 .. max 2000 1998]"
  by code_simp

section \<open>Range policy\<close>

text \<open>
  Claim C7, as the source has it.  \<open>getMaxMonthForYear\<close> returns 12 when no year is
  selected; for a selected year \<open>y\<close> it returns the month of today when \<open>y\<close> is not zero
  and equals the year of today, and 12 otherwise (a selected year 0 counts as no selection).
\<close>

theorem getMaxMonthForYear_cases:
  "getMaxMonthForYear None today = 12
   \<and> getMaxMonthForYear (Some y) today =
       (if y \<noteq> 0 \<and> y = year today then month today else 12)"
  by (simp add: getMaxMonthForYear_def falsyNumber_def)

text \<open>
  Claim C7, as stated, for every selected year equal to the year of today: with the
  selected year 0 and today in June of the year 0 the result is 12, not the month 6.
\<close>

theorem getMaxMonthForYear_zero_counterexample:
  "(0::int) = year \<lparr>year = 0, month = 6, day = 10\<rparr>
   \<and> getMaxMonthForYear (Some 0) \<lparr>year = 0, month = 6, day = 10\<rparr> = 12
   \<and> getMaxMonthForYear (Some 0) \<lparr>year = 0, month = 6, day = 10\<rparr>
       \<noteq> month \<lparr>year = 0, month = 6, day = 10\<rparr>"
  by (simp add: getMaxMonthForYear_def falsyNumber_def)

text \<open>
  Claim C3, as the source has it.  For a selected month \<open>m\<close> from 1 to 12: when no year
  is selected, \<open>getMaxDayForSelection\<close> returns the days of month \<open>m\<close> in the fallback
  year, which is not a leap year, whatever today is; when the year \<open>y\<close> is selected, it
  returns the days of month \<open>m\<close> in year \<open>y\<close>, clamped to the day of today exactly when
  \<open>y\<close> is the year of today and \<open>m\<close> the month of today.
\<close>

theorem getMaxDayForSelection_clamp:
  assumes "1 \<le> m" "m \<le> 12"
  shows "getMaxDayForSelection None (Some m) today = getDaysInMonth FALLBACK_YEAR m
    \<and> getMaxDayForSelection (Some y) (Some m) today =
        (if y = year today \<and> m = month today then min (day today) (getDaysInMonth y m)
         else getDaysInMonth y m)
    \<and> \<not> isLeapYear FALLBACK_YEAR"
  using assms
  by (simp add: getMaxDayForSelection_def Let_def FALLBACK_YEAR_def isLeapYear_def jsRem_def)

text \<open>June, with today the 10 June 2024: 30 days with no year selected, 10 with 2024.\<close>

theorem getMaxDayForSelection_clamp_witness:
  "(1::int) \<le> 6 \<and> (6::int) \<le> 12
    \<and> getMaxDayForSelection None (Some 6) \<lparr>year = 2024, month = 6, day = 10\<rparr> = 30
    \<and> getMaxDayForSelection (Some 2024) (Some 6) \<lparr>year = 2024, month = 6, day = 10\<rparr> = 10"
  using getMaxDayForSelection_clamp [of 6 "\<lparr>year = 2024, month = 6, day = 10\<rparr>" 2024]
  by (simp add: getDaysInMonth_def FALLBACK_YEAR_def)

text \<open>
  Claim C3, as stated, with the clamp applied whenever the effective year, the fallback
  year included, is the year of today: with no year selected, the month 6 and today the
  10 June 2001, the effective year and month are those of today, the clamped value would
  be 10, and the result is 30.
\<close>

theorem getMaxDayForSelection_fallback_counterexample:
  "FALLBACK_YEAR = year \<lparr>year = 2001, month = 6, day = 10\<rparr>
   \<and> (6::int) = month \<lparr>year = 2001, month = 6, day = 10\<rparr>
   \<and> min (day \<lparr>year = 2001, month = 6, day = 10\<rparr>) (getDaysInMonth FALLBACK_YEAR 6) = 10
   \<and> getMaxDayForSelection None (Some 6) \<lparr>year = 2001, month = 6, day = 10\<rparr> = 30"
  by (simp add: getMaxDayForSelection_def FALLBACK_YEAR_def getDaysInMonth_def)

text \<open>
  Claim C10, as the source has it.  The number 0 as the selected year of
  \<open>getMaxMonthForYear\<close>, or as the selected month of \<open>getMaxDayForSelection\<close> and
  \<open>getAvailableDays\<close>, gives the result of an absent selection: 12 for every today, 31 for
  every year, and the list of the days 1 to 31.  The number 0 as the selected year of
  \<open>getMaxDayForSelection\<close> is kept as the year 0: the days of the month are those of the
  year 0, clamped when today is in that year and month.
\<close>

theorem zero_selection_as_absent:
  "getMaxMonthForYear (Some 0) today = 12
   \<and> getMaxMonthForYear (Some 0) today = getMaxMonthForYear None today
   \<and> getMaxDayForSelection y (Some 0) today = 31
   \<and> getMaxDayForSelection y (Some 0) today = getMaxDayForSelection y None today
   \<and> getAvailableDays y (Some 0) today = [1..31]
   \<and> getAvailableDays y (Some 0) today = getAvailableDays y None today
   \<and> getMaxDayForSelection (Some 0) (Some m) today =
       (if m = 0 then 31
        else if 0 = year today \<and> m = month today then min (day today) (getDaysInMonth 0 m)
        else getDaysInMonth 0 m)"
proof -
  have a: "arrayFromLength 31 = [1..31]" by code_simp
  have k: "getMaxDayForSelection (Some 0) (Some m) today =
       (if m = 0 then 31
        else if 0 = year today \<and> m = month today then min (day today) (getDaysInMonth 0 m)
        else getDaysInMonth 0 m)"
    by (auto simp: getMaxDayForSelection_def Let_def)
  have z: "getMaxMonthForYear (Some 0) today = 12
   \<and> getMaxMonthForYear (Some 0) today = getMaxMonthForYear None today
   \<and> getMaxDayForSelection y (Some 0) today = 31
   \<and> getMaxDayForSelection y (Some 0) today = getMaxDayForSelection y None today
   \<and> getAvailableDays y (Some 0) today = [1..31]
   \<and> getAvailableDays y (Some 0) today = getAvailableDays y None today"
    using a
    by (simp add: getMaxMonthForYear_def getMaxDayForSelection_def getAvailableDays_def
        falsyNumber_def)
  from z k show ?thesis by (intro conjI) (elim conjE, assumption)+
qed

text \<open>
  Claim C10, as stated, with the number 0 as the selected year treated like an absent year
  everywhere: for February, with today the 10 June 2024, the selected year 0 is a leap year
  and gives 29 days, and an absent year gives the 28 days of the fallback year; the lists
  of available days differ in the same way.
\<close>

theorem zero_year_kept_counterexample:
  "getMaxDayForSelection (Some 0) (Some 2) \<lparr>year = 2024, month = 6, day = 10\<rparr> = 29
   \<and> getMaxDayForSelection None (Some 2) \<lparr>year = 2024, month = 6, day = 10\<rparr> = 28
   \<and> getAvailableDays (Some 0) (Some 2) \<lparr>year = 2024, month = 6, day = 10\<rparr>
       \<noteq> getAvailableDays None (Some 2) \<lparr>year = 2024, month = 6, day = 10\<rparr>"
  by code_simp

section \<open>Typeahead filter\<close>

text \<open>
  Claim C8.  For every list of options and every query whose trimmed form is empty, each
  of \<open>filterMonthOptions\<close>, \<open>filterNumberOptions\<close> and \<open>filterYearOptions\<close> returns the
  list it was given.
\<close>

theorem filters_blank_query:
  assumes "trim query = []"
  shows "filterMonthOptions months query = months
     \<and> filterNumberOptions numbers query = numbers
     \<and> filterYearOptions numbers query = numbers"
  using assms
  by (simp add: filterMonthOptions_def filterNumberOptions_def filterYearOptions_def
      normalizeFilterText_empty)

text \<open>A query made of a space and a tab.\<close>

theorem filters_blank_query_witness:
  "trim [CHR '' '', CHR 0x09] = []
   \<and> filterMonthOptions [\<lparr>optionValue = 3, label = ''March''\<rparr>] [CHR '' '', CHR 0x09]
       = [\<lparr>optionValue = 3, label = ''March''\<rparr>]
   \<and> filterNumberOptions [1, 2, 3] [CHR '' '', CHR 0x09] = [1, 2, 3]
   \<and> filterYearOptions [1, 2, 3] [CHR '' '', CHR 0x09] = [1, 2, 3]"
proof -
  have h: "trim [CHR '' '', CHR 0x09] = []"
    by (simp add: trim_def isWhiteSpace_def)
  show ?thesis
    using h filters_blank_query [OF h, of "[\<lparr>optionValue = 3, label = ''March''\<rparr>]" "[1, 2, 3]"]
    by simp
qed

text \<open>
  Claim C9.  For every list of integers and every query whose trimmed form is not empty,
  \<open>filterYearOptions\<close> keeps, in the order of the input, exactly the values whose decimal
  representation has the trimmed, lower-cased query as a prefix; and the years built from
  1901 to 1905, filtered by \<open>''19''\<close>, are 1905, 1904, 1903, 1902, 1901.
\<close>

theorem filterYearOptions_prefix:
  "(trim query \<noteq> [] \<longrightarrow>
      filterYearOptions options query =
        filter (\<lambda>v. prefix (toLowerCase (trim query)) (numberToString v)) options)
   \<and> filterYearOptions (buildYearOptions 1901 1905) ''19'' = [1905, 1904, 1903, 1902, 1901]"
proof
  show "trim query \<noteq> [] \<longrightarrow>
      filterYearOptions options query =
        filter (\<lambda>v. prefix (toLowerCase (trim query)) (numberToString v)) options"
    by (simp add: filterYearOptions_def normalizeFilterText_def toLowerCase_def
        startsWith_prefix)
  show "filterYearOptions (buildYearOptions 1901 1905) ''19'' = [1905, 1904, 1903, 1902, 1901]"
    by code_simp
qed

text \<open>The query \<open>'' 19 ''\<close>, with a space on each side, keeps 1905 and 190, and drops
  2019 and 319, which only contain \<open>''19''\<close>.\<close>

theorem filterYearOptions_prefix_witness:
  "trim '' 19 '' \<noteq> []
   \<and> toLowerCase (trim '' 19 '') = ''19''
   \<and> filterYearOptions [1905, 2019, 190, 319] '' 19 '' = [1905, 190]"
proof -
  have t: "trim '' 19 '' = ''19''" by (simp add: trim_def isWhiteSpace_def)
  have h: "trim '' 19 '' \<noteq> []" by (simp add: t)
  have n: "toLowerCase (trim '' 19 '') = ''19''" by code_simp
  have f: "filter (\<lambda>v. prefix ''19'' (numberToString v)) [1905, 2019, 190, 319] = [1905, 190]"
    by code_simp
  from filterYearOptions_prefix [of "'' 19 ''" "[1905, 2019, 190, 319]"] h
  have "filterYearOptions [1905, 2019, 190, 319] '' 19 '' =
        filter (\<lambda>v. prefix (toLowerCase (trim '' 19 '')) (numberToString v))
          [1905, 2019, 190, 319]"
    by blast
  then show ?thesis using h by (simp only: n f simp_thms)
qed

end
